theory Spec2Isabelle
  imports Complex_Main "HOL-Library.Multiset" "HOL-Library.Sublist"
begin

section \<open>Data model of \<^verbatim>\<open>metrics.py\<close>\<close>

text \<open>
  A dataframe is the list of its rows, in order; a row carries the four columns the
  module reads. Identifiers are Python integers. A Python float is modelled by the real
  number it holds, every float operation rounding its exact result to the nearest double
  (\<open>to_double\<close> below); the two zeros of the float format are the one real zero.
  A dataframe has fewer than \<open>2^63\<close> rows, the bound of \<^verbatim>\<open>len\<close>, which keeps every
  quotient and difference the module computes within the finite doubles: the
  \<open>OverflowError\<close> of integer division and the infinities of float subtraction are out
  of reach and not modelled. The \<^verbatim>\<open>print\<close> calls of the three functions write to the
  console only and are left out.
\<close>

record row =
  person_id :: int
  subject_id :: int
  gender_concept_id :: int
  cohort_definition_id :: int

type_synonym dataframe = "row list"

text \<open>The exceptions the interpreter can raise while running the module's code.\<close>

datatype error =
    NameError string
  | ZeroDivisionError
  | KeyError int
  | ValueError

subsection \<open>Interpreter primitives\<close>

text \<open>
  IEEE 754 binary64 rounding, to nearest with ties to the even significand. A double is
  an integer multiple of \<open>2^e\<close>, where \<open>e\<close> is 52 below the binary exponent of the
  value and never below \<open>-1074\<close>, the spacing of the subnormal numbers.
\<close>

definition round_half_even :: "real \<Rightarrow> int" where
  "round_half_even y =
     (if y - of_int \<lfloor>y\<rfloor> < 1 / 2 then \<lfloor>y\<rfloor>
      else if 1 / 2 < y - of_int \<lfloor>y\<rfloor> then \<lfloor>y\<rfloor> + 1
      else if even \<lfloor>y\<rfloor> then \<lfloor>y\<rfloor> else \<lfloor>y\<rfloor> + 1)"

definition ulp_exponent :: "real \<Rightarrow> int" where
  "ulp_exponent x = max (\<lfloor>log 2 \<bar>x\<bar>\<rfloor> - 52) (- 1074)"

definition to_double :: "real \<Rightarrow> real" where
  "to_double x =
     (if x = 0 then 0
      else real_of_int (round_half_even (x / 2 powr real_of_int (ulp_exponent x)))
             * 2 powr real_of_int (ulp_exponent x))"

text \<open>
  \<^verbatim>\<open>a / b\<close> on Python integers: true division, which raises on a zero divisor and
  otherwise returns the double nearest to the exact quotient.
\<close>

definition truediv :: "int \<Rightarrow> int \<Rightarrow> error + real" where
  "truediv a b =
     (if b = 0 then Inl ZeroDivisionError
      else Inr (to_double (real_of_int a / real_of_int b)))"

text \<open>\<^verbatim>\<open>x - y\<close> on Python floats: the double nearest to the exact difference.\<close>

definition float_sub :: "real \<Rightarrow> real \<Rightarrow> real" where
  "float_sub x y = to_double (x - y)"

text \<open>\<^verbatim>\<open>len(df[mask])\<close>: the number of rows a boolean mask selects.\<close>

definition len_where :: "(row \<Rightarrow> bool) \<Rightarrow> dataframe \<Rightarrow> int" where
  "len_where keep df = int (length (filter keep df))"

text \<open>
  \<^verbatim>\<open>itertools.combinations(iterable, r)\<close>: the \<open>r\<close>-length subsequences of the
  input, by position, in lexicographic order of positions; \<open>ValueError\<close> when \<open>r\<close> is
  negative.
\<close>

fun combinations :: "'a list \<Rightarrow> nat \<Rightarrow> 'a list list" where
  "combinations xs 0 = [[]]"
| "combinations [] (Suc r) = []"
| "combinations (x # xs) (Suc r) = map ((#) x) (combinations xs r) @ combinations xs (Suc r)"

definition itertools_combinations :: "'a list \<Rightarrow> int \<Rightarrow> error + 'a list list" where
  "itertools_combinations iterable r =
     (if r < 0 then Inl ValueError else Inr (combinations iterable (nat r)))"

text \<open>
  Name resolution. The module binds \<^verbatim>\<open>np\<close> and \<^verbatim>\<open>itertools\<close> by its two import
  statements and the three function names by their \<^verbatim>\<open>def\<close>s; every other name a
  function body loads must be a builtin, or the load raises \<open>NameError\<close>.
\<close>

definition module_globals :: "string list" where
  "module_globals =
     [''np'', ''itertools'', ''calculate_demographic_parity'',
      ''calculate_equality_of_opportunity'', ''calculate_predictive_rate_parity'']"

definition builtins :: "string list" where
  "builtins = [''len'', ''set'', ''zip'', ''int'', ''str'', ''print'']"

definition load_global :: "string list \<Rightarrow> string \<Rightarrow> error + unit" where
  "load_global globals name =
     (if name \<in> set globals \<or> name \<in> set builtins then Inr () else Inl (NameError name))"

text \<open>
  \<^verbatim>\<open>pd.concat(objs)\<close> stacks the frames; pandas raises \<open>ValueError\<close> on an empty
  list of objects. \<^verbatim>\<open>drop_duplicates()\<close> keeps the first occurrence of every row.
\<close>

definition pd_concat :: "dataframe list \<Rightarrow> error + dataframe" where
  "pd_concat objs = (if objs = [] then Inl ValueError else Inr (concat objs))"

fun drop_duplicates :: "'a list \<Rightarrow> 'a list" where
  "drop_duplicates [] = []"
| "drop_duplicates (x # xs) = x # drop_duplicates (filter (\<lambda>y. y \<noteq> x) xs)"

section \<open>calculate\_demographic\_parity\<close>

text \<open>
  Lines 26-36. The loop appends one difference per dataframe; the first division is by
  \<^verbatim>\<open>men_total\<close>, the second by \<^verbatim>\<open>women_total\<close>.
\<close>

fun demographic_parity_loop ::
  "dataframe list \<Rightarrow> int \<Rightarrow> int \<Rightarrow> real list \<Rightarrow> error + real list" where
  "demographic_parity_loop [] men_total women_total diff_list = Inr diff_list"
| "demographic_parity_loop (phenotype # rest) men_total women_total diff_list =
     (case truediv (len_where (\<lambda>r. gender_concept_id r = 8507) phenotype) men_total of
        Inl e \<Rightarrow> Inl e
      | Inr class_0_prop_outcome \<Rightarrow>
          (case truediv (len_where (\<lambda>r. gender_concept_id r = 8532) phenotype) women_total of
             Inl e \<Rightarrow> Inl e
           | Inr class_1_prop_outcome \<Rightarrow>
               demographic_parity_loop rest men_total women_total
                 (diff_list @ [float_sub class_1_prop_outcome class_0_prop_outcome])))"

definition calculate_demographic_parity ::
  "dataframe list \<Rightarrow> int \<Rightarrow> int \<Rightarrow> error + real list" where
  "calculate_demographic_parity list_of_dataframes men_total women_total =
     demographic_parity_loop list_of_dataframes men_total women_total []"

section \<open>The majority-consensus set\<close>

text \<open>
  Lines 56-74 of \<^verbatim>\<open>calculate_equality_of_opportunity\<close> and lines 109-127 of
  \<^verbatim>\<open>calculate_predictive_rate_parity\<close> are the same text; one definition stands for
  both.
\<close>

text \<open>\<^verbatim>\<open>int(np.ceil(num_phenotypes / 2))\<close>, the quotient being a float.\<close>

definition majority_count :: "nat \<Rightarrow> int" where
  "majority_count num_phenotypes = \<lceil>to_double (real num_phenotypes / 2)\<rceil>"

text \<open>\<^verbatim>\<open>set(df[df.cohort_definition_id == cohort_definition_id].subject_id.unique())\<close>\<close>

definition subject_set :: "dataframe \<Rightarrow> int \<Rightarrow> int set" where
  "subject_set df cid = set (map subject_id (filter (\<lambda>r. cohort_definition_id r = cid) df))"

text \<open>
  The loop over \<^verbatim>\<open>zip(list_of_dataframes, cohort_definition_ids)\<close>: the dictionary
  \<^verbatim>\<open>all_sets\<close> is overwritten at a repeated key, the list \<^verbatim>\<open>inds\<close> keeps every
  identifier.
\<close>

fun build_sets ::
  "(dataframe \<times> int) list \<Rightarrow> (int \<rightharpoonup> int set) \<Rightarrow> int list \<Rightarrow> (int \<rightharpoonup> int set) \<times> int list" where
  "build_sets [] all_sets inds = (all_sets, inds)"
| "build_sets ((df, cid) # rest) all_sets inds =
     build_sets rest (all_sets(cid \<mapsto> subject_set df cid)) (inds @ [cid])"

text \<open>
  The inner loop: \<^verbatim>\<open>intermediate_set = intermediate_set.intersection(all_sets[item])\<close>
  for every item of one combination; a missing key raises \<open>KeyError\<close>.
\<close>

fun intersect_items :: "(int \<rightharpoonup> int set) \<Rightarrow> int list \<Rightarrow> int set \<Rightarrow> error + int set" where
  "intersect_items all_sets [] intermediate_set = Inr intermediate_set"
| "intersect_items all_sets (item # rest) intermediate_set =
     (case all_sets item of
        None \<Rightarrow> Inl (KeyError item)
      | Some s \<Rightarrow> intersect_items all_sets rest (intermediate_set \<inter> s))"

text \<open>
  The outer loop: every combination starts from \<^verbatim>\<open>intermediate_set = set()\<close> and
  its result is united into \<^verbatim>\<open>Y\<close>.
\<close>

fun union_combinations ::
  "(int \<rightharpoonup> int set) \<Rightarrow> int list list \<Rightarrow> int set \<Rightarrow> error + int set" where
  "union_combinations all_sets [] Y = Inr Y"
| "union_combinations all_sets (ele # rest) Y =
     (case intersect_items all_sets ele {} of
        Inl e \<Rightarrow> Inl e
      | Inr intermediate_set \<Rightarrow> union_combinations all_sets rest (Y \<union> intermediate_set))"

definition consensus_Y :: "dataframe list \<Rightarrow> int list \<Rightarrow> error + int set" where
  "consensus_Y list_of_dataframes cohort_definition_ids =
     (let num_phenotypes = length list_of_dataframes;
          majority = majority_count num_phenotypes;
          (all_sets, inds) = build_sets (zip list_of_dataframes cohort_definition_ids) Map.empty []
      in case itertools_combinations inds majority of
           Inl e \<Rightarrow> Inl e
         | Inr eles \<Rightarrow> union_combinations all_sets eles {})"

section \<open>calculate\_equality\_of\_opportunity\<close>

text \<open>
  Lines 80-92: both denominators are counted in \<^verbatim>\<open>full_df\<close>, the same for every
  dataframe.
\<close>

fun equality_of_opportunity_loop ::
  "int set \<Rightarrow> dataframe \<Rightarrow> dataframe list \<Rightarrow> real list \<Rightarrow> error + real list" where
  "equality_of_opportunity_loop Y full_df [] diff_list = Inr diff_list"
| "equality_of_opportunity_loop Y full_df (phenotype # rest) diff_list =
     (case truediv (len_where (\<lambda>r. gender_concept_id r = 8507 \<and> person_id r \<in> Y) phenotype)
                   (len_where (\<lambda>r. gender_concept_id r = 8507) full_df) of
        Inl e \<Rightarrow> Inl e
      | Inr class_0_eqq_opp \<Rightarrow>
          (case truediv (len_where (\<lambda>r. gender_concept_id r = 8532 \<and> person_id r \<in> Y) phenotype)
                        (len_where (\<lambda>r. gender_concept_id r = 8532) full_df) of
             Inl e \<Rightarrow> Inl e
           | Inr class_1_eqq_opp \<Rightarrow>
               equality_of_opportunity_loop Y full_df rest
                 (diff_list @ [float_sub class_1_eqq_opp class_0_eqq_opp])))"

text \<open>
  The whole function, over the names bound in the module's namespace. Line 76 loads the
  name \<^verbatim>\<open>pd\<close> before it evaluates the argument of \<^verbatim>\<open>pd.concat\<close>.
\<close>

definition equality_of_opportunity_in ::
  "string list \<Rightarrow> dataframe list \<Rightarrow> int list \<Rightarrow> error + real list" where
  "equality_of_opportunity_in globals list_of_dataframes cohort_definition_ids =
     (case consensus_Y list_of_dataframes cohort_definition_ids of
        Inl e \<Rightarrow> Inl e
      | Inr Y \<Rightarrow>
          (case load_global globals ''pd'' of
             Inl e \<Rightarrow> Inl e
           | Inr u \<Rightarrow>
               (case pd_concat (map (filter (\<lambda>r. person_id r \<in> Y)) list_of_dataframes) of
                  Inl e \<Rightarrow> Inl e
                | Inr stacked \<Rightarrow>
                    equality_of_opportunity_loop Y (drop_duplicates stacked)
                      list_of_dataframes [])))"

definition calculate_equality_of_opportunity ::
  "dataframe list \<Rightarrow> int list \<Rightarrow> error + real list" where
  "calculate_equality_of_opportunity = equality_of_opportunity_in module_globals"

section \<open>calculate\_predictive\_rate\_parity\<close>

text \<open>Lines 129-141: both denominators are counted in the dataframe itself.\<close>

fun predictive_rate_parity_loop ::
  "int set \<Rightarrow> dataframe list \<Rightarrow> real list \<Rightarrow> error + real list" where
  "predictive_rate_parity_loop Y [] diff_list = Inr diff_list"
| "predictive_rate_parity_loop Y (phenotype # rest) diff_list =
     (case truediv (len_where (\<lambda>r. gender_concept_id r = 8507 \<and> person_id r \<in> Y) phenotype)
                   (len_where (\<lambda>r. gender_concept_id r = 8507) phenotype) of
        Inl e \<Rightarrow> Inl e
      | Inr class_0_prp \<Rightarrow>
          (case truediv (len_where (\<lambda>r. gender_concept_id r = 8532 \<and> person_id r \<in> Y) phenotype)
                        (len_where (\<lambda>r. gender_concept_id r = 8532) phenotype) of
             Inl e \<Rightarrow> Inl e
           | Inr class_1_prp \<Rightarrow>
               predictive_rate_parity_loop Y rest (diff_list @ [float_sub class_1_prp class_0_prp])))"

definition calculate_predictive_rate_parity ::
  "dataframe list \<Rightarrow> int list \<Rightarrow> error + real list" where
  "calculate_predictive_rate_parity list_of_dataframes cohort_definition_ids =
     (case consensus_Y list_of_dataframes cohort_definition_ids of
        Inl e \<Rightarrow> Inl e
      | Inr Y \<Rightarrow> predictive_rate_parity_loop Y list_of_dataframes [])"

section \<open>The entries of the result lists\<close>

text \<open>
  The value each loop appends for one dataframe, once both of its divisions have
  succeeded: the rate of class 1 (8532) minus the rate of class 0 (8507).
\<close>

definition demographic_parity_diff :: "int \<Rightarrow> int \<Rightarrow> dataframe \<Rightarrow> real" where
  "demographic_parity_diff men_total women_total phenotype =
     float_sub
       (to_double (real_of_int (len_where (\<lambda>r. gender_concept_id r = 8532) phenotype)
          / real_of_int women_total))
       (to_double (real_of_int (len_where (\<lambda>r. gender_concept_id r = 8507) phenotype)
          / real_of_int men_total))"

definition equality_of_opportunity_diff :: "int set \<Rightarrow> dataframe \<Rightarrow> dataframe \<Rightarrow> real" where
  "equality_of_opportunity_diff Y full_df phenotype =
     float_sub
       (to_double
          (real_of_int (len_where (\<lambda>r. gender_concept_id r = 8532 \<and> person_id r \<in> Y) phenotype)
           / real_of_int (len_where (\<lambda>r. gender_concept_id r = 8532) full_df)))
       (to_double
          (real_of_int (len_where (\<lambda>r. gender_concept_id r = 8507 \<and> person_id r \<in> Y) phenotype)
           / real_of_int (len_where (\<lambda>r. gender_concept_id r = 8507) full_df)))"

definition predictive_rate_parity_diff :: "int set \<Rightarrow> dataframe \<Rightarrow> real" where
  "predictive_rate_parity_diff Y phenotype =
     float_sub
       (to_double
          (real_of_int (len_where (\<lambda>r. gender_concept_id r = 8532 \<and> person_id r \<in> Y) phenotype)
           / real_of_int (len_where (\<lambda>r. gender_concept_id r = 8532) phenotype)))
       (to_double
          (real_of_int (len_where (\<lambda>r. gender_concept_id r = 8507 \<and> person_id r \<in> Y) phenotype)
           / real_of_int (len_where (\<lambda>r. gender_concept_id r = 8507) phenotype)))"

section \<open>The consensus set as the specification words it\<close>

text \<open>
  Section 4.1 of the specification: with \<open>k = ceil(N / 2)\<close>, the union, over every
  \<open>k\<close>-combination of the cohorts, of the intersection of the subject sets of the
  cohorts in the combination. This definition follows the specification, not the code.
\<close>

definition spec_build_consensus :: "dataframe list \<Rightarrow> int list \<Rightarrow> int set" where
  "spec_build_consensus datasets cohort_ids =
     (let k = nat \<lceil>real (length datasets) / 2\<rceil>
      in \<Union> (set (map (\<lambda>coalition. \<Inter> (set (map (\<lambda>(df, cid). subject_set df cid) coalition)))
                     (combinations (zip datasets cohort_ids) k))))"

section \<open>Concrete inputs\<close>

definition example_man :: row where
  "example_man =
     \<lparr>person_id = 1, subject_id = 1, gender_concept_id = 8507, cohort_definition_id = 1\<rparr>"

definition example_woman :: row where
  "example_woman =
     \<lparr>person_id = 2, subject_id = 2, gender_concept_id = 8532, cohort_definition_id = 1\<rparr>"

text \<open>
  The three-cohort scenario of the specification, the subjects A to E numbered 1 to 5:
  cohort 1 holds A, B, C, cohort 2 holds B, C, D and cohort 3 holds C, D, E.
\<close>

definition cohort_frame :: "int \<Rightarrow> int list \<Rightarrow> dataframe" where
  "cohort_frame cid subjects =
     map (\<lambda>s. \<lparr>person_id = s, subject_id = s, gender_concept_id = 8507,
               cohort_definition_id = cid\<rparr>) subjects"

definition scenario_datasets :: "dataframe list" where
  "scenario_datasets =
     [cohort_frame 1 [1, 2, 3], cohort_frame 2 [2, 3, 4], cohort_frame 3 [3, 4, 5]]"

section \<open>The functions over a store of dataframe objects\<close>

text \<open>
  In Python the caller and the function share each dataframe object. To speak about
  what a call does to the caller's dataframes, the same three functions are modelled
  once more over a store: the list of all dataframe objects alive, an object being
  addressed by its position, and the caller passing addresses. Every pandas operation
  the module uses builds a new object and leaves its operand alone: indexing by a
  boolean mask (\<^verbatim>\<open>df[mask]\<close>), \<^verbatim>\<open>pd.concat\<close>, and \<^verbatim>\<open>drop_duplicates()\<close>, whose
  \<^verbatim>\<open>inplace\<close> parameter is left at its default \<^verbatim>\<open>False\<close>. \<^verbatim>\<open>len\<close>, the column
  accessors, \<^verbatim>\<open>isin\<close> and \<^verbatim>\<open>unique\<close> only read. An exception leaves the store as it
  was when it was raised.
\<close>

type_synonym store = "dataframe list"
type_synonym ref = nat

text \<open>\<^verbatim>\<open>df[mask]\<close>: a new dataframe holding the rows of \<open>a\<close> the mask selects.\<close>

definition df_select :: "(row \<Rightarrow> bool) \<Rightarrow> ref \<Rightarrow> store \<Rightarrow> ref \<times> store" where
  "df_select keep a h = (length h, h @ [filter keep (h ! a)])"

definition df_len :: "ref \<Rightarrow> store \<Rightarrow> int" where
  "df_len a h = int (length (h ! a))"

definition len_of_selection :: "(row \<Rightarrow> bool) \<Rightarrow> ref \<Rightarrow> store \<Rightarrow> int \<times> store" where
  "len_of_selection keep a h = (case df_select keep a h of (t, h') \<Rightarrow> (df_len t h', h'))"

text \<open>
  The loop \<^verbatim>\<open>for phenotype in list_of_dataframes: ...; diffs.append(...)\<close> of all three
  functions, over the body of one iteration.
\<close>

fun append_each ::
  "(ref \<Rightarrow> store \<Rightarrow> (error + real) \<times> store) \<Rightarrow> ref list \<Rightarrow> real list \<Rightarrow> store
     \<Rightarrow> (error + real list) \<times> store" where
  "append_each step [] diff_list h = (Inr diff_list, h)"
| "append_each step (phenotype # rest) diff_list h =
     (case step phenotype h of
        (Inl e, h') \<Rightarrow> (Inl e, h')
      | (Inr d, h') \<Rightarrow> append_each step rest (diff_list @ [d]) h')"

definition demographic_parity_step ::
  "int \<Rightarrow> int \<Rightarrow> ref \<Rightarrow> store \<Rightarrow> (error + real) \<times> store" where
  "demographic_parity_step men_total women_total phenotype h =
     (case len_of_selection (\<lambda>r. gender_concept_id r = 8507) phenotype h of
        (n0, h1) \<Rightarrow>
          (case truediv n0 men_total of
             Inl e \<Rightarrow> (Inl e, h1)
           | Inr class_0_prop_outcome \<Rightarrow>
               (case len_of_selection (\<lambda>r. gender_concept_id r = 8532) phenotype h1 of
                  (n1, h2) \<Rightarrow>
                    (case truediv n1 women_total of
                       Inl e \<Rightarrow> (Inl e, h2)
                     | Inr class_1_prop_outcome \<Rightarrow>
                         (Inr (float_sub class_1_prop_outcome class_0_prop_outcome), h2)))))"

definition calculate_demographic_parity_on ::
  "ref list \<Rightarrow> int \<Rightarrow> int \<Rightarrow> store \<Rightarrow> (error + real list) \<times> store" where
  "calculate_demographic_parity_on list_of_dataframes men_total women_total h =
     append_each (demographic_parity_step men_total women_total) list_of_dataframes [] h"

fun build_sets_on ::
  "(ref \<times> int) list \<Rightarrow> (int \<rightharpoonup> int set) \<Rightarrow> int list \<Rightarrow> store
     \<Rightarrow> ((int \<rightharpoonup> int set) \<times> int list) \<times> store" where
  "build_sets_on [] all_sets inds h = ((all_sets, inds), h)"
| "build_sets_on ((df, cid) # rest) all_sets inds h =
     (case df_select (\<lambda>r. cohort_definition_id r = cid) df h of
        (t, h') \<Rightarrow>
          build_sets_on rest (all_sets(cid \<mapsto> set (map subject_id (h' ! t)))) (inds @ [cid]) h')"

definition consensus_Y_on :: "ref list \<Rightarrow> int list \<Rightarrow> store \<Rightarrow> (error + int set) \<times> store" where
  "consensus_Y_on list_of_dataframes cohort_definition_ids h =
     (case build_sets_on (zip list_of_dataframes cohort_definition_ids) Map.empty [] h of
        ((all_sets, inds), h') \<Rightarrow>
          (case itertools_combinations inds (majority_count (length list_of_dataframes)) of
             Inl e \<Rightarrow> (Inl e, h')
           | Inr eles \<Rightarrow> (union_combinations all_sets eles {}, h')))"

text \<open>
  One rate of lines 83-86 and 132-135: the rows of \<open>phenotype\<close> of one class with
  \<^verbatim>\<open>person_id\<close> in \<^verbatim>\<open>Y\<close>, over the rows of that class in \<open>whole\<close>, which is
  \<^verbatim>\<open>full_df\<close> for equality of opportunity and \<open>phenotype\<close> itself for predictive rate
  parity. Both selections are built before the division.
\<close>

definition rate_step ::
  "int set \<Rightarrow> int \<Rightarrow> ref \<Rightarrow> ref \<Rightarrow> store \<Rightarrow> (error + real) \<times> store" where
  "rate_step Y cls phenotype whole h =
     (case len_of_selection (\<lambda>r. gender_concept_id r = cls \<and> person_id r \<in> Y) phenotype h of
        (n, h1) \<Rightarrow>
          (case len_of_selection (\<lambda>r. gender_concept_id r = cls) whole h1 of
             (d, h2) \<Rightarrow> (truediv n d, h2)))"

definition difference_step ::
  "int set \<Rightarrow> (ref \<Rightarrow> ref) \<Rightarrow> ref \<Rightarrow> store \<Rightarrow> (error + real) \<times> store" where
  "difference_step Y whole_of phenotype h =
     (case rate_step Y 8507 phenotype (whole_of phenotype) h of
        (Inl e, h1) \<Rightarrow> (Inl e, h1)
      | (Inr class_0, h1) \<Rightarrow>
          (case rate_step Y 8532 phenotype (whole_of phenotype) h1 of
             (Inl e, h2) \<Rightarrow> (Inl e, h2)
           | (Inr class_1, h2) \<Rightarrow> (Inr (float_sub class_1 class_0), h2)))"

definition calculate_predictive_rate_parity_on ::
  "ref list \<Rightarrow> int list \<Rightarrow> store \<Rightarrow> (error + real list) \<times> store" where
  "calculate_predictive_rate_parity_on list_of_dataframes cohort_definition_ids h =
     (case consensus_Y_on list_of_dataframes cohort_definition_ids h of
        (Inl e, h1) \<Rightarrow> (Inl e, h1)
      | (Inr Y, h1) \<Rightarrow> append_each (difference_step Y (\<lambda>phenotype. phenotype)) list_of_dataframes [] h1)"

text \<open>The list comprehension of line 76, then \<^verbatim>\<open>pd.concat\<close> and \<^verbatim>\<open>drop_duplicates\<close>.\<close>

fun select_each :: "(row \<Rightarrow> bool) \<Rightarrow> ref list \<Rightarrow> store \<Rightarrow> ref list \<times> store" where
  "select_each keep [] h = ([], h)"
| "select_each keep (df # rest) h =
     (case df_select keep df h of
        (t, h') \<Rightarrow> (case select_each keep rest h' of (ts, h'') \<Rightarrow> (t # ts, h'')))"

definition pd_concat_on :: "ref list \<Rightarrow> store \<Rightarrow> (error + ref) \<times> store" where
  "pd_concat_on objs h =
     (case pd_concat (map ((!) h) objs) of
        Inl e \<Rightarrow> (Inl e, h)
      | Inr stacked \<Rightarrow> (Inr (length h), h @ [stacked]))"

definition drop_duplicates_on :: "ref \<Rightarrow> store \<Rightarrow> ref \<times> store" where
  "drop_duplicates_on a h = (length h, h @ [drop_duplicates (h ! a)])"

definition equality_of_opportunity_on ::
  "string list \<Rightarrow> ref list \<Rightarrow> int list \<Rightarrow> store \<Rightarrow> (error + real list) \<times> store" where
  "equality_of_opportunity_on globals list_of_dataframes cohort_definition_ids h =
     (case consensus_Y_on list_of_dataframes cohort_definition_ids h of
        (Inl e, h1) \<Rightarrow> (Inl e, h1)
      | (Inr Y, h1) \<Rightarrow>
          (case load_global globals ''pd'' of
             Inl e \<Rightarrow> (Inl e, h1)
           | Inr u \<Rightarrow>
               (case select_each (\<lambda>r. person_id r \<in> Y) list_of_dataframes h1 of
                  (parts, h2) \<Rightarrow>
                    (case pd_concat_on parts h2 of
                       (Inl e, h3) \<Rightarrow> (Inl e, h3)
                     | (Inr stacked, h3) \<Rightarrow>
                         (case drop_duplicates_on stacked h3 of
                            (full_df, h4) \<Rightarrow>
                              append_each (difference_step Y (\<lambda>phenotype. full_df))
                                list_of_dataframes [] h4)))))"

definition calculate_equality_of_opportunity_on ::
  "ref list \<Rightarrow> int list \<Rightarrow> store \<Rightarrow> (error + real list) \<times> store" where
  "calculate_equality_of_opportunity_on = equality_of_opportunity_on module_globals"

section \<open>Rounding to doubles\<close>

lemma round_half_even_of_int: "round_half_even (of_int n) = n"
  by (simp add: round_half_even_def)

lemma round_half_even_cases:
  "round_half_even y = \<lfloor>y\<rfloor> \<or> round_half_even y = \<lfloor>y\<rfloor> + 1"
  by (simp add: round_half_even_def)

lemma round_half_even_mono:
  assumes "x \<le> y"
  shows "round_half_even x \<le> round_half_even y"
proof (cases "\<lfloor>x\<rfloor> < \<lfloor>y\<rfloor>")
  case True
  have "round_half_even x \<le> \<lfloor>x\<rfloor> + 1" using round_half_even_cases[of x] by auto
  also have "\<dots> \<le> \<lfloor>y\<rfloor>" using True by simp
  also have "\<dots> \<le> round_half_even y" using round_half_even_cases[of y] by auto
  finally show ?thesis .
next
  case False
  with assms have eq: "\<lfloor>x\<rfloor> = \<lfloor>y\<rfloor>" using floor_mono[OF assms] by simp
  with assms have "x - of_int \<lfloor>x\<rfloor> \<le> y - of_int \<lfloor>y\<rfloor>" by simp
  then show ?thesis unfolding round_half_even_def eq by auto
qed

lemma round_half_even_minus: "round_half_even (- y) = - round_half_even y"
proof (cases "y = of_int \<lfloor>y\<rfloor>")
  case True
  then obtain n where "y = of_int n" ..
  then have "- y = of_int (- n)" by simp
  then show ?thesis using round_half_even_of_int \<open>y = of_int n\<close> by metis
next
  case False
  then have "y \<notin> \<int>" by (metis Ints_cases floor_of_int)
  then have f: "\<lfloor>- y\<rfloor> = - \<lfloor>y\<rfloor> - 1"
    using False by (simp add: floor_minus ceiling_altdef)
  show ?thesis unfolding round_half_even_def f by (auto simp: algebra_simps)
qed

lemma to_double_minus: "to_double (- x) = - to_double x"
  by (simp add: to_double_def ulp_exponent_def round_half_even_minus)

lemma to_double_nonneg: "0 \<le> x \<Longrightarrow> 0 \<le> to_double x"
proof -
  assume x: "0 \<le> x"
  have "round_half_even 0 \<le> round_half_even (x / 2 powr real_of_int (ulp_exponent x))"
    by (rule round_half_even_mono) (simp add: x)
  moreover have "round_half_even 0 = 0" using round_half_even_of_int[of 0] by simp
  ultimately show ?thesis by (simp add: to_double_def)
qed

lemma to_double_nonpos: "x \<le> 0 \<Longrightarrow> to_double x \<le> 0"
  using to_double_nonneg[of "- x"] by (simp add: to_double_minus)

lemma binade_bounds:
  assumes "0 < x"
  shows "2 powr real_of_int \<lfloor>log 2 x\<rfloor> \<le> x" and "x < 2 powr real_of_int (\<lfloor>log 2 x\<rfloor> + 1)"
  using floor_log_eq_powr_iff[of x 2 "\<lfloor>log 2 x\<rfloor>"] assms by simp_all

lemma p2_int: "e \<le> j \<Longrightarrow> 2 powr real_of_int (j - e) = real_of_int (2 ^ nat (j - e))"
  using powr_real_of_int[of 2 "j - e"] by simp

lemma p2_split: "2 powr real_of_int j = 2 powr real_of_int (j - e) * 2 powr real_of_int e"
  by (simp add: powr_add[symmetric])

lemma to_double_ge_p2:
  assumes x: "0 < x" and e: "ulp_exponent x \<le> j" and b: "2 powr real_of_int j \<le> x"
  shows "2 powr real_of_int j \<le> to_double x"
proof -
  let ?e = "ulp_exponent x"
  have "2 powr real_of_int (j - ?e) * 2 powr real_of_int ?e \<le> x"
    using b p2_split[of j ?e] by simp
  then have "real_of_int (2 ^ nat (j - ?e)) \<le> x / 2 powr real_of_int ?e"
    using p2_int[OF e] by (simp add: pos_le_divide_eq)
  then have "round_half_even (real_of_int (2 ^ nat (j - ?e)))
               \<le> round_half_even (x / 2 powr real_of_int ?e)"
    by (rule round_half_even_mono)
  then have "real_of_int (2 ^ nat (j - ?e)) \<le> real_of_int (round_half_even (x / 2 powr real_of_int ?e))"
    by (simp only: round_half_even_of_int of_int_le_iff)
  then have "real_of_int (2 ^ nat (j - ?e)) * 2 powr real_of_int ?e
               \<le> real_of_int (round_half_even (x / 2 powr real_of_int ?e)) * 2 powr real_of_int ?e"
    by (rule mult_right_mono) simp
  then show ?thesis
    using x p2_split[of j ?e] p2_int[OF e] by (simp add: to_double_def)
qed

lemma to_double_le_p2:
  assumes x: "0 < x" and e: "ulp_exponent x \<le> j" and b: "x \<le> 2 powr real_of_int j"
  shows "to_double x \<le> 2 powr real_of_int j"
proof -
  let ?e = "ulp_exponent x"
  have "x \<le> 2 powr real_of_int (j - ?e) * 2 powr real_of_int ?e"
    using b p2_split[of j ?e] by simp
  then have "x / 2 powr real_of_int ?e \<le> real_of_int (2 ^ nat (j - ?e))"
    using p2_int[OF e] by (simp add: pos_divide_le_eq)
  then have "round_half_even (x / 2 powr real_of_int ?e)
               \<le> round_half_even (real_of_int (2 ^ nat (j - ?e)))"
    by (rule round_half_even_mono)
  then have "real_of_int (round_half_even (x / 2 powr real_of_int ?e)) \<le> real_of_int (2 ^ nat (j - ?e))"
    by (simp only: round_half_even_of_int of_int_le_iff)
  then have "real_of_int (round_half_even (x / 2 powr real_of_int ?e)) * 2 powr real_of_int ?e
               \<le> real_of_int (2 ^ nat (j - ?e)) * 2 powr real_of_int ?e"
    by (rule mult_right_mono) simp
  then show ?thesis
    using x p2_split[of j ?e] p2_int[OF e] by (simp add: to_double_def)
qed

lemma to_double_mono_pos:
  assumes x: "0 < x" and xy: "x \<le> y"
  shows "to_double x \<le> to_double y"
proof -
  have y: "0 < y" using x xy by simp
  define kx ky where "kx = \<lfloor>log 2 x\<rfloor>" and "ky = \<lfloor>log 2 y\<rfloor>"
  have k: "kx \<le> ky" unfolding kx_def ky_def using x xy by (intro floor_mono log_mono) simp_all
  have ex: "ulp_exponent x = max (kx - 52) (- 1074)"
    using x by (simp add: ulp_exponent_def kx_def)
  have ey: "ulp_exponent y = max (ky - 52) (- 1074)"
    using y by (simp add: ulp_exponent_def ky_def)
  show ?thesis
  proof (cases "ulp_exponent x = ulp_exponent y")
    case True
    have "x / 2 powr real_of_int (ulp_exponent y) \<le> y / 2 powr real_of_int (ulp_exponent y)"
      using xy by (simp add: divide_right_mono)
    then have "round_half_even (x / 2 powr real_of_int (ulp_exponent y))
                 \<le> round_half_even (y / 2 powr real_of_int (ulp_exponent y))"
      by (rule round_half_even_mono)
    then have "real_of_int (round_half_even (x / 2 powr real_of_int (ulp_exponent y)))
                   * 2 powr real_of_int (ulp_exponent y)
                 \<le> real_of_int (round_half_even (y / 2 powr real_of_int (ulp_exponent y)))
                   * 2 powr real_of_int (ulp_exponent y)"
      by (intro mult_right_mono) simp_all
    then show ?thesis using x y True by (simp add: to_double_def)
  next
    case False
    with k ex ey have lt: "kx < ky" and ey': "ulp_exponent y \<le> ky"
      and exy: "ulp_exponent x \<le> ky" by linarith+
    have "x < 2 powr real_of_int (kx + 1)" unfolding kx_def by (rule binade_bounds(2)[OF x])
    also have "\<dots> \<le> 2 powr real_of_int ky" using lt by (simp add: powr_mono)
    finally have "x \<le> 2 powr real_of_int ky" by simp
    then have "to_double x \<le> 2 powr real_of_int ky" by (rule to_double_le_p2[OF x exy])
    also have "\<dots> \<le> to_double y"
      using binade_bounds(1)[OF y] by (intro to_double_ge_p2[OF y ey']) (simp add: ky_def)
    finally show ?thesis .
  qed
qed

lemma to_double_mono: "x \<le> y \<Longrightarrow> to_double x \<le> to_double y"
proof -
  assume xy: "x \<le> y"
  consider "0 < x" | "x \<le> 0" "0 \<le> y" | "y < 0" by linarith
  then show ?thesis
  proof cases
    case 1
    then show ?thesis using xy by (rule to_double_mono_pos)
  next
    case 2
    then show ?thesis using to_double_nonpos[of x] to_double_nonneg[of y] by linarith
  next
    case 3
    then have "to_double (- y) \<le> to_double (- x)"
      using xy by (intro to_double_mono_pos) simp_all
    then show ?thesis by (simp add: to_double_minus)
  qed
qed

lemma ulp_exponent_ge: "- 1074 \<le> ulp_exponent x"
  by (simp add: ulp_exponent_def)

lemma to_double_grid: "\<exists>m. to_double x = real_of_int m * 2 powr real_of_int (- 1074)"
proof (cases "x = 0")
  case True
  then have "to_double x = real_of_int 0 * 2 powr real_of_int (- 1074)" by (simp add: to_double_def)
  then show ?thesis ..
next
  case False
  let ?e = "ulp_exponent x"
  let ?m = "round_half_even (x / 2 powr real_of_int ?e)"
  have "2 powr real_of_int ?e = real_of_int (2 ^ nat (?e - (- 1074))) * 2 powr real_of_int (- 1074)"
    using p2_split[of ?e "- 1074"] p2_int[OF ulp_exponent_ge[of x]] by simp
  then have "to_double x = real_of_int (?m * 2 ^ nat (?e - (- 1074))) * 2 powr real_of_int (- 1074)"
    using False by (simp add: to_double_def)
  then show ?thesis ..
qed

lemma to_double_pos:
  assumes "2 powr real_of_int (- 1074) \<le> z"
  shows "0 < to_double z"
proof -
  have z: "0 < z" using assms by (rule less_le_trans[rotated]) simp
  define k where "k = \<lfloor>log 2 z\<rfloor>"
  have "real_of_int (- 1074) \<le> log 2 z" using assms z by (simp add: le_log_iff)
  then have "- 1074 \<le> k" unfolding k_def by (simp add: le_floor_iff)
  then have e: "ulp_exponent z \<le> k" using z by (simp add: ulp_exponent_def k_def)
  have "2 powr real_of_int k \<le> to_double z"
    using binade_bounds(1)[OF z] by (intro to_double_ge_p2[OF z e]) (simp add: k_def)
  then show ?thesis by (rule less_le_trans[rotated]) simp
qed

lemma to_double_diff_pos_iff:
  "(0 < to_double (to_double a - to_double b)) = (to_double b < to_double a)"
proof
  assume "0 < to_double (to_double a - to_double b)"
  then show "to_double b < to_double a"
    using to_double_nonpos[of "to_double a - to_double b"] by linarith
next
  assume lt: "to_double b < to_double a"
  obtain ma where ma: "to_double a = real_of_int ma * 2 powr real_of_int (- 1074)"
    using to_double_grid by blast
  obtain mb where mb: "to_double b = real_of_int mb * 2 powr real_of_int (- 1074)"
    using to_double_grid by blast
  from lt have "real_of_int mb < real_of_int ma" unfolding ma mb by simp
  then have "mb < ma" by simp
  then have "1 \<le> ma - mb" by simp
  then have "1 \<le> real_of_int (ma - mb)" by (simp only: of_int_1_le_iff)
  then have "1 * 2 powr real_of_int (- 1074) \<le> real_of_int (ma - mb) * 2 powr real_of_int (- 1074)"
    by (rule mult_right_mono) simp
  then have "2 powr real_of_int (- 1074) \<le> to_double a - to_double b"
    unfolding ma mb by (simp add: algebra_simps)
  then show "0 < to_double (to_double a - to_double b)" by (rule to_double_pos)
qed

lemma round_half_even_nearest:
  assumes "\<bar>y - real_of_int m\<bar> < 1 / 2"
  shows "round_half_even y = m"
proof -
  have "\<lfloor>y\<rfloor> = m \<or> \<lfloor>y\<rfloor> = m - 1" using assms by linarith
  then show ?thesis
  proof
    assume f: "\<lfloor>y\<rfloor> = m"
    then have "y - real_of_int \<lfloor>y\<rfloor> < 1 / 2" using assms by linarith
    then show ?thesis by (simp add: round_half_even_def f)
  next
    assume f: "\<lfloor>y\<rfloor> = m - 1"
    from assms have "real_of_int m - 1 / 2 < y" by linarith
    then have "1 / 2 < y - real_of_int (m - 1)" by simp
    then show ?thesis by (simp add: round_half_even_def f)
  qed
qed

lemma to_double_eval:
  assumes "0 < x" and "2 powr real_of_int k \<le> x" and "x < 2 powr real_of_int (k + 1)"
    and "- 1022 \<le> k" and "\<bar>x / 2 powr real_of_int (k - 52) - real_of_int m\<bar> < 1 / 2"
  shows "to_double x = real_of_int m * 2 powr real_of_int (k - 52)"
proof -
  have "\<lfloor>log 2 x\<rfloor> = k" using assms(1-3) by (simp add: floor_log_eq_powr_iff)
  then have e: "ulp_exponent x = k - 52" using assms(1,4) by (simp add: ulp_exponent_def)
  show ?thesis
    using assms(1) round_half_even_nearest[OF assms(5)] by (simp add: to_double_def e)
qed

lemma three_tenths: "to_double (3 / 10) = 5404319552844595 / 2 ^ 54"
  using to_double_eval[of "3 / 10" "- 2" 5404319552844595]
  by (simp add: powr_minus powr_numeral)

lemma four_tenths: "to_double (2 / 5) = 3602879701896397 / 2 ^ 53"
  using to_double_eval[of "2 / 5" "- 2" 7205759403792794]
  by (simp add: powr_minus powr_numeral)

lemma scenario_difference:
  "to_double (5404319552844595 / 2 ^ 54 - 3602879701896397 / 2 ^ 53)
     = - (1801439850948199 / 2 ^ 54)"
  using to_double_minus[of "1801439850948199 / 2 ^ 54"]
    to_double_eval[of "1801439850948199 / 2 ^ 54" "- 4" 7205759403792796]
  by (simp add: powr_minus powr_numeral)

lemma scenario_entry:
  "to_double (to_double (3 / 10) - to_double (2 / 5)) = - (1801439850948199 / 2 ^ 54)"
  unfolding three_tenths four_tenths by (rule scenario_difference)

lemma tiny_rate: "to_double (1 / 2 ^ 60) = 1 / 2 ^ 60"
  using to_double_eval[of "1 / 2 ^ 60" "- 60" "2 ^ 52"]
  by (simp add: powr_minus powr_numeral)

lemma tiny_rate_below: "to_double (1 / (2 ^ 60 + 1)) = 1 / 2 ^ 60"
  using to_double_eval[of "1 / (2 ^ 60 + 1)" "- 61" "2 ^ 53"]
  by (simp add: powr_minus powr_numeral field_simps)

lemma tiny_entry:
  "to_double (to_double (1 / 2 ^ 60) - to_double (1 / (2 ^ 60 + 1))) = 0"
  unfolding tiny_rate tiny_rate_below by (simp add: to_double_def)

lemma to_double_zero: "to_double 0 = 0"
  by (simp add: to_double_def)

lemma float_sub_zero: "float_sub 0 0 = 0"
  by (simp add: float_sub_def to_double_zero)

section \<open>The consensus set the code computes\<close>

lemma majority_count_not_neg: "\<not> majority_count n < 0"
proof -
  have "0 \<le> to_double (real n / 2)" by (rule to_double_nonneg) simp
  then have "0 \<le> \<lceil>to_double (real n / 2)\<rceil>" by (simp add: ceiling_mono[of 0, simplified])
  then show ?thesis by (simp add: majority_count_def)
qed

text \<open>Every identifier appended to \<^verbatim>\<open>inds\<close> is a key of \<^verbatim>\<open>all_sets\<close>.\<close>

lemma build_sets_keys:
  "build_sets ps all_sets inds = (all_sets', inds') \<Longrightarrow> set inds \<subseteq> dom all_sets
     \<Longrightarrow> set inds' \<subseteq> dom all_sets'"
  by (induction ps all_sets inds rule: build_sets.induct) auto

lemma combinations_subset: "ele \<in> set (combinations xs r) \<Longrightarrow> set ele \<subseteq> set xs"
proof (induction xs r arbitrary: ele rule: combinations.induct)
  case (1 xs)
  then show ?case by simp
next
  case (2 r)
  then show ?case by simp
next
  case (3 x xs r)
  from "3.prems" have
    "(\<exists>c \<in> set (combinations xs r). ele = x # c) \<or> ele \<in> set (combinations xs (Suc r))"
    by (simp add: image_iff)
  then show ?case
  proof
    assume "\<exists>c \<in> set (combinations xs r). ele = x # c"
    then obtain c where c: "c \<in> set (combinations xs r)" "ele = x # c" by blast
    from "3.IH"(1)[OF c(1)] c(2) show ?thesis by (simp add: subset_insertI2)
  next
    assume "ele \<in> set (combinations xs (Suc r))"
    from "3.IH"(2)[OF this] show ?thesis by (simp add: subset_insertI2)
  qed
qed

text \<open>Intersecting into the empty set leaves it empty, and no key is missing.\<close>

lemma intersect_items_empty:
  "set ele \<subseteq> dom all_sets \<Longrightarrow> intersect_items all_sets ele {} = Inr {}"
  by (induction ele) (auto split: option.splits)

lemma union_combinations_keeps:
  "(\<And>ele. ele \<in> set eles \<Longrightarrow> set ele \<subseteq> dom all_sets)
     \<Longrightarrow> union_combinations all_sets eles Y = Inr Y"
  by (induction eles arbitrary: Y) (simp_all add: intersect_items_empty)

lemma consensus_Y_empty: "consensus_Y dfs ids = Inr {}"
proof -
  obtain all_sets inds where b: "build_sets (zip dfs ids) Map.empty [] = (all_sets, inds)"
    by (cases "build_sets (zip dfs ids) Map.empty []")
  have k: "set inds \<subseteq> dom all_sets"
    by (rule build_sets_keys[OF b]) simp
  have "union_combinations all_sets (combinations inds (nat (majority_count (length dfs)))) {}
          = Inr {}"
  proof (rule union_combinations_keeps)
    fix ele
    assume "ele \<in> set (combinations inds (nat (majority_count (length dfs))))"
    from combinations_subset[OF this] k show "set ele \<subseteq> dom all_sets"
      by (rule subset_trans)
  qed
  then show ?thesis
    by (simp add: consensus_Y_def b itertools_combinations_def Let_def majority_count_not_neg)
qed

lemma load_pd: "load_global module_globals ''pd'' = Inl (NameError ''pd'')"
  by (simp add: load_global_def module_globals_def builtins_def)

section \<open>The loops in closed form\<close>

lemma demographic_parity_loop_eq:
  "demographic_parity_loop dfs men women acc =
     (if dfs = [] \<or> (men \<noteq> 0 \<and> women \<noteq> 0)
      then Inr (acc @ map (demographic_parity_diff men women) dfs)
      else Inl ZeroDivisionError)"
  by (induction dfs arbitrary: acc) (simp_all add: truediv_def demographic_parity_diff_def)

lemma equality_of_opportunity_loop_eq:
  "equality_of_opportunity_loop Y full_df dfs acc =
     (if dfs = [] \<or> (len_where (\<lambda>r. gender_concept_id r = 8507) full_df \<noteq> 0
                      \<and> len_where (\<lambda>r. gender_concept_id r = 8532) full_df \<noteq> 0)
      then Inr (acc @ map (equality_of_opportunity_diff Y full_df) dfs)
      else Inl ZeroDivisionError)"
  by (induction dfs arbitrary: acc) (simp_all add: truediv_def equality_of_opportunity_diff_def)

lemma predictive_rate_parity_loop_eq:
  "predictive_rate_parity_loop Y dfs acc =
     (if list_all (\<lambda>df. len_where (\<lambda>r. gender_concept_id r = 8507) df \<noteq> 0
                      \<and> len_where (\<lambda>r. gender_concept_id r = 8532) df \<noteq> 0) dfs
      then Inr (acc @ map (predictive_rate_parity_diff Y) dfs)
      else Inl ZeroDivisionError)"
  by (induction dfs arbitrary: acc) (simp_all add: truediv_def predictive_rate_parity_diff_def)

lemma len_where_replicate: "len_where keep (replicate n x) = (if keep x then int n else 0)"
  by (induction n) (simp_all add: len_where_def)

lemma len_where_append: "len_where keep (xs @ ys) = len_where keep xs + len_where keep ys"
  by (simp add: len_where_def)

lemma subject_set_cohort_frame: "subject_set (cohort_frame cid subjects) cid = set subjects"
  by (simp add: subject_set_def cohort_frame_def comp_def)

lemma combinations_3_2: "combinations [a, b, c] 2 = [[a, b], [a, c], [b, c]]"
  by (simp add: numeral_2_eq_2)

lemma zip_take_min:
  "zip xs ys = zip (take (min (length xs) (length ys)) xs) (take (min (length xs) (length ys)) ys)"
  by (induction xs ys rule: list_induct2') simp_all

subsection \<open>The functions on the concrete inputs\<close>

lemma prp_mismatch_example:
  "calculate_predictive_rate_parity [[example_man, example_woman]] [1, 2] = Inr [0]"
  by (simp add: calculate_predictive_rate_parity_def consensus_Y_empty truediv_def len_where_def
      to_double_zero float_sub_zero example_man_def example_woman_def)

section \<open>The store model: the store only grows, and the results agree\<close>

lemma prefix_nth: "prefix h h' \<Longrightarrow> a < length h \<Longrightarrow> h' ! a = h ! a"
  by (auto simp: prefix_def nth_append)

lemma len_of_selection_eq:
  "len_of_selection keep a h = (len_where keep (h ! a), h @ [filter keep (h ! a)])"
  by (simp add: len_of_selection_def df_select_def df_len_def len_where_def)

lemma df_select_grows: "prefix h (snd (df_select keep a h))"
  by (simp add: df_select_def)

lemma demographic_parity_step_grows: "prefix h (snd (demographic_parity_step m w p h))"
  by (simp add: demographic_parity_step_def len_of_selection_eq split: sum.splits)

lemma rate_step_grows: "prefix h (snd (rate_step Y cls p q h))"
  by (simp add: rate_step_def len_of_selection_eq)

lemma difference_step_grows: "prefix h (snd (difference_step Y whole_of p h))"
proof -
  obtain r1 h1 where s1: "rate_step Y 8507 p (whole_of p) h = (r1, h1)"
    by (cases "rate_step Y 8507 p (whole_of p) h")
  obtain r2 h2 where s2: "rate_step Y 8532 p (whole_of p) h1 = (r2, h2)"
    by (cases "rate_step Y 8532 p (whole_of p) h1")
  have p1: "prefix h h1" using rate_step_grows[of h Y 8507 p "whole_of p"] s1 by simp
  have p2: "prefix h1 h2" using rate_step_grows[of h1 Y 8532 p "whole_of p"] s2 by simp
  from p1 p2 have "prefix h h2" by (rule prefix_order.trans)
  with p1 show ?thesis
    by (simp add: difference_step_def s1 s2 split: sum.splits)
qed

lemma append_each_grows:
  assumes "\<And>p h. prefix h (snd (step p h))"
  shows "prefix h (snd (append_each step refs acc h))"
proof (induction refs arbitrary: acc h)
  case Nil
  show ?case by simp
next
  case (Cons p refs)
  obtain r h' where s: "step p h = (r, h')" by (cases "step p h")
  have g: "prefix h h'" using assms[of h p] s by simp
  show ?case
  proof (cases r)
    case (Inl e)
    with s g show ?thesis by simp
  next
    case (Inr d)
    have "prefix h' (snd (append_each step refs (acc @ [d]) h'))" by (rule Cons.IH)
    with g have "prefix h (snd (append_each step refs (acc @ [d]) h'))"
      by (rule prefix_order.trans)
    with s Inr show ?thesis by simp
  qed
qed

lemma build_sets_on_grows: "prefix h (snd (build_sets_on ps all_sets inds h))"
proof (induction ps arbitrary: all_sets inds h)
  case Nil
  show ?case by simp
next
  case (Cons pr ps)
  obtain df cid where pr: "pr = (df, cid)" by (cases pr)
  have "prefix (h @ [filter (\<lambda>r. cohort_definition_id r = cid) (h ! df)])
          (snd (build_sets_on ps
             (all_sets(cid \<mapsto> set (map subject_id
                ((h @ [filter (\<lambda>r. cohort_definition_id r = cid) (h ! df)]) ! length h))))
             (inds @ [cid]) (h @ [filter (\<lambda>r. cohort_definition_id r = cid) (h ! df)])))"
    by (rule Cons.IH)
  then have "prefix h (snd (build_sets_on ps
             (all_sets(cid \<mapsto> set (map subject_id
                ((h @ [filter (\<lambda>r. cohort_definition_id r = cid) (h ! df)]) ! length h))))
             (inds @ [cid]) (h @ [filter (\<lambda>r. cohort_definition_id r = cid) (h ! df)])))"
    by (rule append_prefixD)
  then show ?case by (simp add: pr df_select_def)
qed

lemma consensus_Y_on_grows: "prefix h (snd (consensus_Y_on refs ids h))"
proof -
  obtain all_sets inds h' where b:
    "build_sets_on (zip refs ids) Map.empty [] h = ((all_sets, inds), h')"
    by (cases "build_sets_on (zip refs ids) Map.empty [] h") auto
  have "prefix h h'" using build_sets_on_grows[of h "zip refs ids" Map.empty "[]"] b by simp
  then show ?thesis by (simp add: consensus_Y_on_def b split: sum.splits)
qed

lemma select_each_grows: "prefix h (snd (select_each keep refs h))"
proof (induction refs arbitrary: h)
  case Nil
  show ?case by simp
next
  case (Cons a refs)
  obtain ts h'' where s: "select_each keep refs (h @ [filter keep (h ! a)]) = (ts, h'')"
    by (cases "select_each keep refs (h @ [filter keep (h ! a)])")
  have "prefix (h @ [filter keep (h ! a)]) h''"
    using Cons.IH[of "h @ [filter keep (h ! a)]"] s by simp
  then have "prefix h h''" by (rule append_prefixD)
  then show ?case by (simp add: df_select_def s)
qed

lemma pd_concat_on_grows: "prefix h (snd (pd_concat_on objs h))"
  by (simp add: pd_concat_on_def split: sum.splits)

lemma drop_duplicates_on_grows: "prefix h (snd (drop_duplicates_on a h))"
  by (simp add: drop_duplicates_on_def)

lemma calculate_demographic_parity_on_grows:
  "prefix h (snd (calculate_demographic_parity_on refs m w h))"
  unfolding calculate_demographic_parity_on_def
  by (rule append_each_grows) (rule demographic_parity_step_grows)

lemma calculate_predictive_rate_parity_on_grows:
  "prefix h (snd (calculate_predictive_rate_parity_on refs ids h))"
proof -
  obtain r h1 where c: "consensus_Y_on refs ids h = (r, h1)"
    by (cases "consensus_Y_on refs ids h")
  have g1: "prefix h h1" using consensus_Y_on_grows[of h refs ids] c by simp
  show ?thesis
  proof (cases r)
    case (Inl e)
    with c g1 show ?thesis by (simp add: calculate_predictive_rate_parity_on_def)
  next
    case (Inr Y)
    have "prefix h1 (snd (append_each (difference_step Y (\<lambda>phenotype. phenotype)) refs [] h1))"
      by (rule append_each_grows) (rule difference_step_grows)
    with g1 have "prefix h (snd (append_each (difference_step Y (\<lambda>phenotype. phenotype)) refs [] h1))"
      by (rule prefix_order.trans)
    with c Inr show ?thesis by (simp add: calculate_predictive_rate_parity_on_def)
  qed
qed

lemma equality_of_opportunity_on_grows:
  "prefix h (snd (equality_of_opportunity_on globals refs ids h))"
proof -
  obtain r h1 where c: "consensus_Y_on refs ids h = (r, h1)"
    by (cases "consensus_Y_on refs ids h")
  have g1: "prefix h h1" using consensus_Y_on_grows[of h refs ids] c by simp
  show ?thesis
  proof (cases r)
    case (Inl e)
    with c g1 show ?thesis by (simp add: equality_of_opportunity_on_def)
  next
    case (Inr Y)
    show ?thesis
    proof (cases "load_global globals ''pd''")
      case (Inl e)
      with c Inr g1 show ?thesis by (simp add: equality_of_opportunity_on_def)
    next
      case u: (Inr u)
      obtain parts h2 where s: "select_each (\<lambda>r. person_id r \<in> Y) refs h1 = (parts, h2)"
        by (cases "select_each (\<lambda>r. person_id r \<in> Y) refs h1")
      have "prefix h1 h2"
        using select_each_grows[of h1 "\<lambda>r. person_id r \<in> Y" refs] s by simp
      with g1 have g2: "prefix h h2" by (rule prefix_order.trans)
      obtain rc h3 where pc: "pd_concat_on parts h2 = (rc, h3)"
        by (cases "pd_concat_on parts h2")
      have "prefix h2 h3" using pd_concat_on_grows[of h2 parts] pc by simp
      with g2 have g3: "prefix h h3" by (rule prefix_order.trans)
      show ?thesis
      proof (cases rc)
        case (Inl e)
        with c Inr u s pc g3 show ?thesis by (simp add: equality_of_opportunity_on_def)
      next
        case st: (Inr stacked)
        obtain full_df h4 where dd: "drop_duplicates_on stacked h3 = (full_df, h4)"
          by (cases "drop_duplicates_on stacked h3")
        have "prefix h3 h4" using drop_duplicates_on_grows[of h3 stacked] dd by simp
        with g3 have g4: "prefix h h4" by (rule prefix_order.trans)
        have "prefix h4 (snd (append_each (difference_step Y (\<lambda>phenotype. full_df)) refs [] h4))"
          by (rule append_each_grows) (rule difference_step_grows)
        with g4 have "prefix h (snd (append_each (difference_step Y (\<lambda>phenotype. full_df)) refs [] h4))"
          by (rule prefix_order.trans)
        with c Inr u s pc st dd show ?thesis by (simp add: equality_of_opportunity_on_def)
      qed
    qed
  qed
qed

lemma deref_grow:
  "\<forall>a\<in>set refs. a < length h \<Longrightarrow> map ((!) (h @ ext)) refs = map ((!) h) refs"
  by (simp add: nth_append)

lemma demographic_parity_step_eq:
  "p < length h \<Longrightarrow> demographic_parity_step m w p h =
     (case truediv (len_where (\<lambda>r. gender_concept_id r = 8507) (h ! p)) m of
        Inl e \<Rightarrow> (Inl e, h @ [filter (\<lambda>r. gender_concept_id r = 8507) (h ! p)])
      | Inr c0 \<Rightarrow>
          (case truediv (len_where (\<lambda>r. gender_concept_id r = 8532) (h ! p)) w of
             Inl e \<Rightarrow> (Inl e, h @ [filter (\<lambda>r. gender_concept_id r = 8507) (h ! p),
                                     filter (\<lambda>r. gender_concept_id r = 8532) (h ! p)])
           | Inr c1 \<Rightarrow> (Inr (float_sub c1 c0), h @ [filter (\<lambda>r. gender_concept_id r = 8507) (h ! p),
                                     filter (\<lambda>r. gender_concept_id r = 8532) (h ! p)])))"
  by (simp add: demographic_parity_step_def len_of_selection_eq nth_append split: sum.splits)

lemma demographic_parity_on_refines_loop:
  "\<forall>a\<in>set refs. a < length h \<Longrightarrow>
     fst (append_each (demographic_parity_step m w) refs acc h)
       = demographic_parity_loop (map ((!) h) refs) m w acc"
proof (induction refs arbitrary: acc h)
  case Nil
  show ?case by simp
next
  case (Cons p refs)
  then have p: "p < length h" and rest: "\<forall>a\<in>set refs. a < length h" by simp_all
  let ?h2 = "h @ [filter (\<lambda>r. gender_concept_id r = 8507) (h ! p),
                  filter (\<lambda>r. gender_concept_id r = 8532) (h ! p)]"
  have rest2: "\<forall>a\<in>set refs. a < length ?h2" using rest by auto
  have ih: "\<And>acc. fst (append_each (demographic_parity_step m w) refs acc ?h2)
              = demographic_parity_loop (map ((!) h) refs) m w acc"
    using Cons.IH[OF rest2] deref_grow[OF rest] by simp
  show ?case
    by (simp add: demographic_parity_step_eq[OF p] ih split: sum.splits)
qed

lemma rate_step_eq:
  "p < length h \<Longrightarrow> q < length h \<Longrightarrow> rate_step Y cls p q h =
     (truediv (len_where (\<lambda>r. gender_concept_id r = cls \<and> person_id r \<in> Y) (h ! p))
              (len_where (\<lambda>r. gender_concept_id r = cls) (h ! q)),
      h @ [filter (\<lambda>r. gender_concept_id r = cls \<and> person_id r \<in> Y) (h ! p),
           filter (\<lambda>r. gender_concept_id r = cls) (h ! q)])"
  by (simp add: rate_step_def len_of_selection_eq nth_append)

lemma difference_step_fst:
  "p < length h \<Longrightarrow> whole_of p < length h \<Longrightarrow>
   fst (difference_step Y whole_of p h) =
     (case truediv (len_where (\<lambda>r. gender_concept_id r = 8507 \<and> person_id r \<in> Y) (h ! p))
              (len_where (\<lambda>r. gender_concept_id r = 8507) (h ! whole_of p)) of
        Inl e \<Rightarrow> Inl e
      | Inr c0 \<Rightarrow>
         (case truediv (len_where (\<lambda>r. gender_concept_id r = 8532 \<and> person_id r \<in> Y) (h ! p))
              (len_where (\<lambda>r. gender_concept_id r = 8532) (h ! whole_of p)) of
            Inl e \<Rightarrow> Inl e
          | Inr c1 \<Rightarrow> Inr (float_sub c1 c0)))"
  by (simp add: difference_step_def rate_step_eq nth_append split: sum.splits)

lemma predictive_rate_parity_on_refines_loop:
  "\<forall>a\<in>set refs. a < length h \<Longrightarrow>
     fst (append_each (difference_step Y (\<lambda>phenotype. phenotype)) refs acc h)
       = predictive_rate_parity_loop Y (map ((!) h) refs) acc"
proof (induction refs arbitrary: acc h)
  case Nil
  show ?case by simp
next
  case (Cons p refs)
  then have p: "p < length h" and rest: "\<forall>a\<in>set refs. a < length h" by simp_all
  obtain r h1 where s: "difference_step Y (\<lambda>phenotype. phenotype) p h = (r, h1)"
    by (cases "difference_step Y (\<lambda>phenotype. phenotype) p h")
  have g: "prefix h h1"
    using difference_step_grows[of h Y "\<lambda>phenotype. phenotype" p] s by simp
  then have rest1: "\<forall>a\<in>set refs. a < length h1"
    using rest prefix_length_le by fastforce
  have same: "map ((!) h1) refs = map ((!) h) refs"
    using rest g by (simp add: prefix_nth)
  have f: "r = (case truediv
        (len_where (\<lambda>r. gender_concept_id r = 8507 \<and> person_id r \<in> Y) (h ! p))
        (len_where (\<lambda>r. gender_concept_id r = 8507) (h ! p)) of
        Inl e \<Rightarrow> Inl e
      | Inr c0 \<Rightarrow>
         (case truediv
            (len_where (\<lambda>r. gender_concept_id r = 8532 \<and> person_id r \<in> Y) (h ! p))
            (len_where (\<lambda>r. gender_concept_id r = 8532) (h ! p)) of
            Inl e \<Rightarrow> Inl e
          | Inr c1 \<Rightarrow> Inr (float_sub c1 c0)))"
    using difference_step_fst[of p h "\<lambda>phenotype. phenotype" Y] p s by simp
  show ?case
  proof (cases r)
    case (Inl e)
    with f s show ?thesis by (simp split: sum.splits)
  next
    case (Inr d)
    with f s Cons.IH[OF rest1, of "acc @ [d]"] same show ?thesis
      by (simp split: sum.splits)
  qed
qed

lemma valid_grow: "\<forall>a\<in>set refs. a < length h \<Longrightarrow> prefix h h' \<Longrightarrow> \<forall>a\<in>set refs. a < length h'"
  using prefix_length_le by fastforce

lemma deref_prefix:
  "\<forall>a\<in>set refs. a < length h \<Longrightarrow> prefix h h' \<Longrightarrow> map ((!) h') refs = map ((!) h) refs"
  by (simp add: prefix_nth)

lemma equality_of_opportunity_on_refines_loop:
  "\<forall>a\<in>set refs. a < length h \<Longrightarrow> q < length h \<Longrightarrow>
     fst (append_each (difference_step Y (\<lambda>phenotype. q)) refs acc h)
       = equality_of_opportunity_loop Y (h ! q) (map ((!) h) refs) acc"
proof (induction refs arbitrary: acc h)
  case Nil
  show ?case by simp
next
  case (Cons p refs)
  then have p: "p < length h" and rest: "\<forall>a\<in>set refs. a < length h"
    and q: "q < length h" by simp_all
  obtain r h1 where s: "difference_step Y (\<lambda>phenotype. q) p h = (r, h1)"
    by (cases "difference_step Y (\<lambda>phenotype. q) p h")
  have g: "prefix h h1"
    using difference_step_grows[of h Y "\<lambda>phenotype. q" p] s by simp
  have rest1: "\<forall>a\<in>set refs. a < length h1" by (rule valid_grow[OF rest g])
  have q1: "q < length h1" using q prefix_length_le[OF g] by simp
  have same: "map ((!) h1) refs = map ((!) h) refs" by (rule deref_prefix[OF rest g])
  have sameq: "h1 ! q = h ! q" by (rule prefix_nth[OF g q])
  have f: "r = (case truediv
        (len_where (\<lambda>r. gender_concept_id r = 8507 \<and> person_id r \<in> Y) (h ! p))
        (len_where (\<lambda>r. gender_concept_id r = 8507) (h ! q)) of
        Inl e \<Rightarrow> Inl e
      | Inr c0 \<Rightarrow>
         (case truediv
            (len_where (\<lambda>r. gender_concept_id r = 8532 \<and> person_id r \<in> Y) (h ! p))
            (len_where (\<lambda>r. gender_concept_id r = 8532) (h ! q)) of
            Inl e \<Rightarrow> Inl e
          | Inr c1 \<Rightarrow> Inr (float_sub c1 c0)))"
    using difference_step_fst[of p h "\<lambda>phenotype. q" Y] p q s by simp
  show ?case
  proof (cases r)
    case (Inl e)
    with f s show ?thesis by (simp split: sum.splits)
  next
    case (Inr d)
    with f s Cons.IH[OF rest1 q1, of "acc @ [d]"] same sameq show ?thesis
      by (simp split: sum.splits)
  qed
qed

lemma build_sets_on_refines:
  "\<forall>a\<in>set (map fst ps). a < length h \<Longrightarrow>
     fst (build_sets_on ps all_sets inds h)
       = build_sets (map (\<lambda>(a, cid). (h ! a, cid)) ps) all_sets inds"
proof (induction ps arbitrary: all_sets inds h)
  case Nil
  show ?case by simp
next
  case (Cons pr ps)
  obtain df cid where pr: "pr = (df, cid)" by (cases pr)
  from Cons.prems pr have d: "df < length h" and rest: "\<forall>a\<in>set (map fst ps). a < length h"
    by simp_all
  let ?h' = "h @ [filter (\<lambda>r. cohort_definition_id r = cid) (h ! df)]"
  have rest': "\<forall>a\<in>set (map fst ps). a < length ?h'" using rest by auto
  have same: "map (\<lambda>(a, cid). (?h' ! a, cid)) ps = map (\<lambda>(a, cid). (h ! a, cid)) ps"
    using rest by (auto simp: nth_append)
  have "fst (build_sets_on (pr # ps) all_sets inds h)
          = fst (build_sets_on ps (all_sets(cid \<mapsto> subject_set (h ! df) cid)) (inds @ [cid]) ?h')"
    by (simp add: pr df_select_def subject_set_def)
  also have "\<dots> = build_sets (map (\<lambda>(a, cid). (?h' ! a, cid)) ps)
                      (all_sets(cid \<mapsto> subject_set (h ! df) cid)) (inds @ [cid])"
    by (rule Cons.IH[OF rest'])
  also have "\<dots> = build_sets (map (\<lambda>(a, cid). (h ! a, cid)) ps)
                      (all_sets(cid \<mapsto> subject_set (h ! df) cid)) (inds @ [cid])"
    by (simp only: same)
  also have "\<dots> = build_sets (map (\<lambda>(a, cid). (h ! a, cid)) (pr # ps)) all_sets inds"
    by (simp add: pr)
  finally show ?case .
qed

lemma zip_deref: "map (\<lambda>(a, cid). (h ! a, cid)) (zip refs ids) = zip (map ((!) h) refs) ids"
  by (induction refs ids rule: list_induct2') simp_all

lemma consensus_Y_on_refines:
  assumes "\<forall>a\<in>set refs. a < length h"
  shows "fst (consensus_Y_on refs ids h) = consensus_Y (map ((!) h) refs) ids"
proof -
  have v: "\<forall>a\<in>set (map fst (zip refs ids)). a < length h"
    using assms by (auto dest: set_zip_leftD)
  obtain all_sets inds h' where b:
    "build_sets_on (zip refs ids) Map.empty [] h = ((all_sets, inds), h')"
    by (cases "build_sets_on (zip refs ids) Map.empty [] h") auto
  have "build_sets (zip (map ((!) h) refs) ids) Map.empty [] = (all_sets, inds)"
    using build_sets_on_refines[OF v, of Map.empty "[]"] b by (simp add: zip_deref)
  then show ?thesis
    by (simp add: consensus_Y_on_def consensus_Y_def b Let_def split: sum.splits)
qed

lemma select_each_refines:
  "\<forall>a\<in>set refs. a < length h \<Longrightarrow>
     map ((!) (snd (select_each keep refs h))) (fst (select_each keep refs h))
       = map (filter keep) (map ((!) h) refs)"
proof (induction refs arbitrary: h)
  case Nil
  show ?case by simp
next
  case (Cons a refs)
  then have a: "a < length h" and rest: "\<forall>a\<in>set refs. a < length h" by simp_all
  let ?h' = "h @ [filter keep (h ! a)]"
  obtain ts h'' where s: "select_each keep refs ?h' = (ts, h'')"
    by (cases "select_each keep refs ?h'")
  have rest': "\<forall>a\<in>set refs. a < length ?h'" using rest by auto
  have g: "prefix ?h' h''" using select_each_grows[of ?h' keep refs] s by simp
  have hd: "h'' ! length h = filter keep (h ! a)"
    using prefix_nth[OF g, of "length h"] by simp
  have "map ((!) h'') ts = map (filter keep) (map ((!) ?h') refs)"
    using Cons.IH[OF rest'] s by simp
  also have "map ((!) ?h') refs = map ((!) h) refs" by (rule deref_grow[OF rest])
  finally show ?case using hd by (simp add: df_select_def s)
qed

lemma calculate_demographic_parity_on_refines:
  "\<forall>a\<in>set refs. a < length h \<Longrightarrow>
     fst (calculate_demographic_parity_on refs men_total women_total h)
       = calculate_demographic_parity (map ((!) h) refs) men_total women_total"
  by (simp add: calculate_demographic_parity_on_def calculate_demographic_parity_def
      demographic_parity_on_refines_loop)

lemma calculate_predictive_rate_parity_on_refines:
  assumes "\<forall>a\<in>set refs. a < length h"
  shows "fst (calculate_predictive_rate_parity_on refs ids h)
           = calculate_predictive_rate_parity (map ((!) h) refs) ids"
proof -
  obtain r h1 where c: "consensus_Y_on refs ids h = (r, h1)"
    by (cases "consensus_Y_on refs ids h")
  have g1: "prefix h h1" using consensus_Y_on_grows[of h refs ids] c by simp
  have r: "consensus_Y (map ((!) h) refs) ids = r"
    using consensus_Y_on_refines[OF assms, of ids] c by simp
  show ?thesis
  proof (cases r)
    case (Inl e)
    with c r show ?thesis
      by (simp add: calculate_predictive_rate_parity_on_def calculate_predictive_rate_parity_def)
  next
    case (Inr Y)
    have "fst (append_each (difference_step Y (\<lambda>phenotype. phenotype)) refs [] h1)
            = predictive_rate_parity_loop Y (map ((!) h1) refs) []"
      by (rule predictive_rate_parity_on_refines_loop[OF valid_grow[OF assms g1]])
    also have "map ((!) h1) refs = map ((!) h) refs" by (rule deref_prefix[OF assms g1])
    finally show ?thesis using c r Inr
      by (simp add: calculate_predictive_rate_parity_on_def calculate_predictive_rate_parity_def)
  qed
qed

lemma equality_of_opportunity_on_refines:
  assumes "\<forall>a\<in>set refs. a < length h"
  shows "fst (equality_of_opportunity_on globals refs ids h)
           = equality_of_opportunity_in globals (map ((!) h) refs) ids"
proof -
  obtain r h1 where c: "consensus_Y_on refs ids h = (r, h1)"
    by (cases "consensus_Y_on refs ids h")
  have g1: "prefix h h1" using consensus_Y_on_grows[of h refs ids] c by simp
  have r: "consensus_Y (map ((!) h) refs) ids = r"
    using consensus_Y_on_refines[OF assms, of ids] c by simp
  show ?thesis
  proof (cases r)
    case (Inl e)
    with c r show ?thesis
      by (simp add: equality_of_opportunity_on_def equality_of_opportunity_in_def)
  next
    case (Inr Y)
    show ?thesis
    proof (cases "load_global globals ''pd''")
      case (Inl e)
      with c r Inr show ?thesis
        by (simp add: equality_of_opportunity_on_def equality_of_opportunity_in_def)
    next
      case u: (Inr u)
      have v1: "\<forall>a\<in>set refs. a < length h1" by (rule valid_grow[OF assms g1])
      obtain parts h2 where s: "select_each (\<lambda>r. person_id r \<in> Y) refs h1 = (parts, h2)"
        by (cases "select_each (\<lambda>r. person_id r \<in> Y) refs h1")
      have g12: "prefix h1 h2"
        using select_each_grows[of h1 "\<lambda>r. person_id r \<in> Y" refs] s by simp
      with g1 have g2: "prefix h h2" by (rule prefix_order.trans)
      have "map ((!) h2) parts = map (filter (\<lambda>r. person_id r \<in> Y)) (map ((!) h1) refs)"
        using select_each_refines[OF v1, of "\<lambda>r. person_id r \<in> Y"] s by simp
      also have "map ((!) h1) refs = map ((!) h) refs" by (rule deref_prefix[OF assms g1])
      finally have parts:
        "map ((!) h2) parts = map (filter (\<lambda>r. person_id r \<in> Y)) (map ((!) h) refs)" .
      show ?thesis
      proof (cases "pd_concat (map (filter (\<lambda>r. person_id r \<in> Y)) (map ((!) h) refs))")
        case (Inl e)
        with c r Inr u s parts show ?thesis
          by (simp add: equality_of_opportunity_on_def equality_of_opportunity_in_def
              pd_concat_on_def)
      next
        case st: (Inr stacked)
        let ?h3 = "h2 @ [stacked]"
        let ?h4 = "?h3 @ [drop_duplicates stacked]"
        have g4: "prefix h ?h4" using g2 by simp
        have v4: "\<forall>a\<in>set refs. a < length ?h4" by (rule valid_grow[OF assms g4])
        have q4: "length ?h3 < length ?h4" by simp
        have "fst (append_each (difference_step Y (\<lambda>phenotype. length ?h3)) refs [] ?h4)
                = equality_of_opportunity_loop Y (?h4 ! length ?h3) (map ((!) ?h4) refs) []"
          by (rule equality_of_opportunity_on_refines_loop[OF v4 q4])
        also have "map ((!) ?h4) refs = map ((!) h) refs" by (rule deref_prefix[OF assms g4])
        also have "?h4 ! length ?h3 = drop_duplicates stacked" by (simp add: nth_append)
        finally have loop:
          "fst (append_each (difference_step Y (\<lambda>phenotype. length ?h3)) refs [] ?h4)
             = equality_of_opportunity_loop Y (drop_duplicates stacked) (map ((!) h) refs) []" .
        have pc: "pd_concat_on parts h2 = (Inr (length h2), ?h3)"
          using st parts by (simp add: pd_concat_on_def)
        have dd: "drop_duplicates_on (length h2) ?h3 = (length ?h3, ?h4)"
          by (simp add: drop_duplicates_on_def)
        show ?thesis
          using c r Inr u s st loop
          by (simp add: equality_of_opportunity_on_def equality_of_opportunity_in_def pc dd
              del: append.simps append_assoc)
      qed
    qed
  qed
qed

lemma calculate_equality_of_opportunity_on_refines:
  "\<forall>a\<in>set refs. a < length h \<Longrightarrow>
     fst (calculate_equality_of_opportunity_on refs ids h)
       = calculate_equality_of_opportunity (map ((!) h) refs) ids"
  by (simp add: calculate_equality_of_opportunity_on_def calculate_equality_of_opportunity_def
      equality_of_opportunity_on_refines)

lemma dp_on_example:
  "snd (calculate_demographic_parity_on [0] 100 200 [[example_man, example_woman]])
     = [[example_man, example_woman], [example_man], [example_woman]]"
  by (simp add: calculate_demographic_parity_on_def demographic_parity_step_def
      len_of_selection_def df_select_def df_len_def truediv_def example_man_def example_woman_def)

subsection \<open>Every returned list has one entry per dataframe\<close>

lemma demographic_parity_result_length:
  "calculate_demographic_parity dfs men_total women_total = Inr r
     \<Longrightarrow> length r = length dfs \<and> r = map (demographic_parity_diff men_total women_total) dfs"
  by (auto simp add: calculate_demographic_parity_def demographic_parity_loop_eq
      split: if_splits)

lemma predictive_rate_parity_result_length:
  "calculate_predictive_rate_parity dfs ids = Inr r
     \<Longrightarrow> length r = length dfs \<and> r = map (predictive_rate_parity_diff {}) dfs"
  by (auto simp add: calculate_predictive_rate_parity_def consensus_Y_empty
      predictive_rate_parity_loop_eq split: if_splits)

lemma concat_filter_none: "concat (map (filter (\<lambda>r. False)) dfs) = []"
  by (induction dfs) simp_all

lemma equality_of_opportunity_never_returns:
  "equality_of_opportunity_in globals dfs ids \<noteq> Inr r"
  by (simp add: equality_of_opportunity_in_def consensus_Y_empty pd_concat_def
      equality_of_opportunity_loop_eq concat_filter_none len_where_def split: sum.splits)

section \<open>Claims\<close>

text \<open>
  C2. On every input, the empty dataframe list included,
  \<^verbatim>\<open>calculate_equality_of_opportunity\<close> raises \<open>NameError\<close> for the name
  \<^verbatim>\<open>pd\<close>, which the module never binds, and returns no result.
\<close>

theorem equality_of_opportunity_NameError:
  "calculate_equality_of_opportunity list_of_dataframes cohort_definition_ids
     = Inl (NameError ''pd'')"
  by (simp add: calculate_equality_of_opportunity_def equality_of_opportunity_in_def
      consensus_Y_empty load_pd)

text \<open>
  C3. On every input the consensus set \<^verbatim>\<open>Y\<close> of both functions is the empty set,
  and so both numerators of every dataframe, which count rows whose
  \<^verbatim>\<open>person_id\<close> is in \<^verbatim>\<open>Y\<close>, are zero.
\<close>

theorem consensus_Y_is_empty_set:
  "\<exists>Y. consensus_Y list_of_dataframes cohort_definition_ids = Inr Y \<and> Y = {}
     \<and> len_where (\<lambda>r. gender_concept_id r = 8507 \<and> person_id r \<in> Y) phenotype = 0
     \<and> len_where (\<lambda>r. gender_concept_id r = 8532 \<and> person_id r \<in> Y) phenotype = 0"
  by (simp add: consensus_Y_empty len_where_def)

text \<open>
  C1. The specification's scenario: three datasets with cohort identifiers 1, 2, 3 and
  subject sets \<open>{A,B,C}\<close>, \<open>{B,C,D}\<close>, \<open>{C,D,E}\<close>. The union over the 2-combinations
  of the intersections is \<open>{B,C,D}\<close>; the code, which starts every intersection from the
  empty set, computes the empty set.
\<close>

theorem scenario_consensus_differs:
  "consensus_Y scenario_datasets [1, 2, 3] = Inr {}
   \<and> spec_build_consensus scenario_datasets [1, 2, 3] = {2, 3, 4}"
proof
  show "consensus_Y scenario_datasets [1, 2, 3] = Inr {}"
    by (rule consensus_Y_empty)
  have k: "nat \<lceil>real (length scenario_datasets) / 2\<rceil> = 2"
    by (simp add: scenario_datasets_def)
  show "spec_build_consensus scenario_datasets [1, 2, 3] = {2, 3, 4}"
    unfolding spec_build_consensus_def k Let_def
    by (simp add: scenario_datasets_def combinations_3_2 subject_set_cohort_frame) auto
qed

text \<open>
  C4, as stated, fails. On a dataframe of 40 rows of class 0 and 60 rows of class 1,
  with totals 100 and 200, the entry returned is the double
  \<open>-1801439850948199 / 2^54\<close>, printed \<^verbatim>\<open>-0.10000000000000003\<close>, not \<open>-1/10\<close>.
  And with one row of each class, \<^verbatim>\<open>men_total\<close> \<open>2^60 + 1\<close> and \<^verbatim>\<open>women_total\<close>
  \<open>2^60\<close>, class 1 has the higher rate and the entry is zero, not positive.
\<close>

theorem demographic_parity_scenario_rounds:
  "calculate_demographic_parity [replicate 40 example_man @ replicate 60 example_woman] 100 200
     = Inr [- (1801439850948199 / 2 ^ 54)]
   \<and> - (1801439850948199 / 2 ^ 54) \<noteq> - (1 / 10 :: real)
   \<and> calculate_demographic_parity [[example_man, example_woman]] (2 ^ 60 + 1) (2 ^ 60) = Inr [0]
   \<and> (1 :: real) / (2 ^ 60 + 1) < 1 / 2 ^ 60"
proof (intro conjI)
  show "calculate_demographic_parity
          [replicate 40 example_man @ replicate 60 example_woman] 100 200
          = Inr [- (1801439850948199 / 2 ^ 54)]"
    by (simp add: calculate_demographic_parity_def demographic_parity_loop_eq
        demographic_parity_diff_def float_sub_def len_where_append len_where_replicate
        scenario_entry example_man_def example_woman_def)
  show "- (1801439850948199 / 2 ^ 54) \<noteq> - (1 / 10 :: real)" by simp
  show "calculate_demographic_parity [[example_man, example_woman]] (2 ^ 60 + 1) (2 ^ 60)
          = Inr [0]"
    using tiny_entry
    by (simp add: calculate_demographic_parity_def demographic_parity_loop_eq
        demographic_parity_diff_def float_sub_def len_where_def
        example_man_def example_woman_def)
  show "(1 :: real) / (2 ^ 60 + 1) < 1 / 2 ^ 60" by simp
qed

text \<open>
  C4, amended. With positive totals \<^verbatim>\<open>calculate_demographic_parity\<close> returns, for
  every dataframe, the double nearest to the difference of its two rates as computed:
  the double nearest to its number of rows of class 1 (8532) over \<^verbatim>\<open>women_total\<close>,
  minus the double nearest to its number of rows of class 0 (8507) over
  \<^verbatim>\<open>men_total\<close>. An entry is positive exactly when the computed rate of class 1
  exceeds the computed rate of class 0, and then class 1 has the higher exact rate. A
  dataframe with 40 rows of class 0 and 60 rows of class 1, with totals 100 and 200,
  gives \<open>-1801439850948199 / 2^54\<close>.
\<close>

theorem demographic_parity_rounded_rates:
  assumes "0 < men_total" and "0 < women_total"
  shows "\<exists>result.
      calculate_demographic_parity list_of_dataframes men_total women_total = Inr result
    \<and> result = map (\<lambda>phenotype.
          to_double
            (to_double (real_of_int (len_where (\<lambda>r. gender_concept_id r = 8532) phenotype)
               / real_of_int women_total)
             - to_double (real_of_int (len_where (\<lambda>r. gender_concept_id r = 8507) phenotype)
               / real_of_int men_total))) list_of_dataframes
    \<and> (\<forall>i < length list_of_dataframes.
         ((0 < result ! i) =
           (to_double
              (real_of_int (len_where (\<lambda>r. gender_concept_id r = 8507) (list_of_dataframes ! i))
                / real_of_int men_total)
            < to_double
              (real_of_int (len_where (\<lambda>r. gender_concept_id r = 8532) (list_of_dataframes ! i))
                / real_of_int women_total)))
         \<and> (0 < result ! i \<longrightarrow>
              real_of_int (len_where (\<lambda>r. gender_concept_id r = 8507) (list_of_dataframes ! i))
                / real_of_int men_total
              < real_of_int (len_where (\<lambda>r. gender_concept_id r = 8532) (list_of_dataframes ! i))
                / real_of_int women_total))
    \<and> (len_where (\<lambda>r. gender_concept_id r = 8507) df = 40
         \<and> len_where (\<lambda>r. gender_concept_id r = 8532) df = 60
         \<longrightarrow> calculate_demographic_parity [df] 100 200 = Inr [- (1801439850948199 / 2 ^ 54)])"
proof -
  let ?r0 = "\<lambda>phenotype. real_of_int (len_where (\<lambda>r. gender_concept_id r = 8507) phenotype)
               / real_of_int men_total"
  let ?r1 = "\<lambda>phenotype. real_of_int (len_where (\<lambda>r. gender_concept_id r = 8532) phenotype)
               / real_of_int women_total"
  let ?result = "map (\<lambda>phenotype. to_double (to_double (?r1 phenotype) - to_double (?r0 phenotype)))
                   list_of_dataframes"
  have call: "calculate_demographic_parity list_of_dataframes men_total women_total = Inr ?result"
    using assms
    by (simp add: calculate_demographic_parity_def demographic_parity_loop_eq
        demographic_parity_diff_def float_sub_def)
  have exact: "?r0 p < ?r1 p" if "to_double (?r0 p) < to_double (?r1 p)" for p
  proof (rule ccontr)
    assume "\<not> ?r0 p < ?r1 p"
    then have "?r1 p \<le> ?r0 p" by simp
    then have "to_double (?r1 p) \<le> to_double (?r0 p)" by (rule to_double_mono)
    with that show False by simp
  qed
  have sign: "\<forall>i < length list_of_dataframes.
      ((0 < ?result ! i) =
         (to_double (?r0 (list_of_dataframes ! i)) < to_double (?r1 (list_of_dataframes ! i))))
      \<and> (0 < ?result ! i \<longrightarrow> ?r0 (list_of_dataframes ! i) < ?r1 (list_of_dataframes ! i))"
    using exact by (simp add: to_double_diff_pos_iff)
  have scenario: "len_where (\<lambda>r. gender_concept_id r = 8507) df = 40
         \<and> len_where (\<lambda>r. gender_concept_id r = 8532) df = 60
         \<longrightarrow> calculate_demographic_parity [df] 100 200 = Inr [- (1801439850948199 / 2 ^ 54)]"
    by (simp add: calculate_demographic_parity_def demographic_parity_loop_eq
        demographic_parity_diff_def float_sub_def scenario_entry)
  from call sign scenario show ?thesis by blast
qed

text \<open>
  The amended C4 at totals 100 and 200, on a dataframe of 40 men's rows followed by
  60 women's rows.
\<close>

theorem demographic_parity_rounded_rates_witness:
  "(0 :: int) < 100 \<and> (0 :: int) < 200
   \<and> len_where (\<lambda>r. gender_concept_id r = 8507)
        (replicate 40 example_man @ replicate 60 example_woman) = 40
   \<and> len_where (\<lambda>r. gender_concept_id r = 8532)
        (replicate 40 example_man @ replicate 60 example_woman) = 60
   \<and> calculate_demographic_parity
        [replicate 40 example_man @ replicate 60 example_woman] 100 200
       = Inr [- (1801439850948199 / 2 ^ 54)]"
  using demographic_parity_rounded_rates[of 100 200
      "[replicate 40 example_man @ replicate 60 example_woman]"
      "replicate 40 example_man @ replicate 60 example_woman"]
  by (simp add: len_where_append len_where_replicate scenario_entry
      example_man_def example_woman_def)

text \<open>
  C5. On a non-empty list of dataframes, a zero \<^verbatim>\<open>men_total\<close> or a zero
  \<^verbatim>\<open>women_total\<close> makes \<^verbatim>\<open>calculate_demographic_parity\<close> raise Python's
  \<open>ZeroDivisionError\<close>; no value is returned.
\<close>

theorem demographic_parity_zero_total:
  assumes "list_of_dataframes \<noteq> []" and "men_total = 0 \<or> women_total = 0"
  shows "calculate_demographic_parity list_of_dataframes men_total women_total
           = Inl ZeroDivisionError"
  using assms by (auto simp add: calculate_demographic_parity_def demographic_parity_loop_eq)

text \<open>C5 at one dataframe, once with no men in total and once with no women.\<close>

theorem demographic_parity_zero_total_witness:
  "calculate_demographic_parity [[example_man]] 0 200 = Inl ZeroDivisionError
   \<and> calculate_demographic_parity [[example_man]] 100 0 = Inl ZeroDivisionError"
  using demographic_parity_zero_total[of "[[example_man]]" 0 200]
    demographic_parity_zero_total[of "[[example_man]]" 100 0]
  by simp


text \<open>
  C7, as stated, fails: with one dataframe and two cohort identifiers
  \<^verbatim>\<open>calculate_predictive_rate_parity\<close> raises nothing and returns a list.
\<close>

theorem length_mismatch_returns_result:
  "length [[example_man, example_woman]] \<noteq> length [1, 2 :: int]
   \<and> calculate_predictive_rate_parity [[example_man, example_woman]] [1, 2] = Inr [0]"
  by (simp add: prp_mismatch_example)

text \<open>
  C7, amended. When the two lists differ in length no check detects it: \<^verbatim>\<open>zip\<close>
  pairs the lists up to the shorter one, the consensus construction runs on that
  pairing without an error, and \<^verbatim>\<open>calculate_predictive_rate_parity\<close> either raises
  \<open>ZeroDivisionError\<close> or returns one entry per dataframe.
\<close>

theorem length_mismatch_truncated_pairing:
  assumes "length dfs \<noteq> length ids"
  shows "build_sets (zip dfs ids) Map.empty [] =
           build_sets (zip (take (min (length dfs) (length ids)) dfs)
                           (take (min (length dfs) (length ids)) ids)) Map.empty []
     \<and> (\<exists>Y. consensus_Y dfs ids = Inr Y)
     \<and> (calculate_predictive_rate_parity dfs ids = Inl ZeroDivisionError
        \<or> (\<exists>r. calculate_predictive_rate_parity dfs ids = Inr r \<and> length r = length dfs))"
proof (intro conjI)
  show "build_sets (zip dfs ids) Map.empty [] =
           build_sets (zip (take (min (length dfs) (length ids)) dfs)
                           (take (min (length dfs) (length ids)) ids)) Map.empty []"
    using zip_take_min[of dfs ids] by simp
  show "\<exists>Y. consensus_Y dfs ids = Inr Y"
    by (simp add: consensus_Y_empty)
  show "calculate_predictive_rate_parity dfs ids = Inl ZeroDivisionError
        \<or> (\<exists>r. calculate_predictive_rate_parity dfs ids = Inr r \<and> length r = length dfs)"
    by (simp add: calculate_predictive_rate_parity_def consensus_Y_empty
        predictive_rate_parity_loop_eq)
qed

text \<open>The amended C7 at one dataframe and two cohort identifiers.\<close>

theorem length_mismatch_truncated_pairing_witness:
  "length [[example_man, example_woman]] \<noteq> length [1, 2 :: int]
   \<and> build_sets (zip [[example_man, example_woman]] [1, 2]) Map.empty [] =
       build_sets (zip [[example_man, example_woman]] [1]) Map.empty []
   \<and> (\<exists>Y. consensus_Y [[example_man, example_woman]] [1, 2] = Inr Y)
   \<and> (\<exists>r. calculate_predictive_rate_parity [[example_man, example_woman]] [1, 2] = Inr r
          \<and> length r = length [[example_man, example_woman]])"
proof -
  have ne: "length [[example_man, example_woman]] \<noteq> length [1, 2 :: int]" by simp
  have ok: "calculate_predictive_rate_parity [[example_man, example_woman]] [1, 2]
              \<noteq> Inl ZeroDivisionError"
    by (simp add: prp_mismatch_example)
  from length_mismatch_truncated_pairing[OF ne] ok ne show ?thesis by simp
qed

text \<open>
  C8. One dataframe without duplicate rows whose two subjects both belong to its
  cohort: \<^verbatim>\<open>calculate_predictive_rate_parity\<close> returns \<open>[0]\<close>, while
  \<^verbatim>\<open>calculate_equality_of_opportunity\<close> raises \<open>NameError\<close>, and would raise
  \<open>ZeroDivisionError\<close> if the module bound \<^verbatim>\<open>pd\<close>.
\<close>

theorem full_overlap_metrics_differ:
  "calculate_predictive_rate_parity [[example_man, example_woman]] [1] = Inr [0]
   \<and> calculate_equality_of_opportunity [[example_man, example_woman]] [1]
       = Inl (NameError ''pd'')
   \<and> equality_of_opportunity_in (''pd'' # module_globals) [[example_man, example_woman]] [1]
       = Inl ZeroDivisionError
   \<and> subject_set [example_man, example_woman] 1 = {1, 2}
   \<and> distinct [example_man, example_woman]"
  by (simp add: calculate_predictive_rate_parity_def calculate_equality_of_opportunity_def
      equality_of_opportunity_in_def load_global_def module_globals_def builtins_def pd_concat_def
      consensus_Y_empty truediv_def len_where_def subject_set_def
      to_double_zero float_sub_zero example_man_def example_woman_def)

text \<open>
  C9. Applying one permutation to the (dataframe, cohort identifier) pairs leaves the
  consensus set the code computes unchanged.
\<close>

theorem consensus_Y_permutation_invariant:
  assumes "mset pairs' = mset pairs"
  shows "consensus_Y (map fst pairs') (map snd pairs')
           = consensus_Y (map fst pairs) (map snd pairs)"
  by (simp add: consensus_Y_empty)

text \<open>C9 at two pairs, swapped.\<close>

theorem consensus_Y_permutation_invariant_witness:
  "mset [([example_woman], 2), ([example_man], 1 :: int)]
     = mset [([example_man], 1), ([example_woman], 2)]
   \<and> consensus_Y [[example_woman], [example_man]] [2, 1]
       = consensus_Y [[example_man], [example_woman]] [1, 2]"
proof -
  have p: "mset [([example_woman], 2), ([example_man], 1 :: int)]
             = mset [([example_man], 1), ([example_woman], 2)]"
    by (simp add: add_mset_commute)
  from consensus_Y_permutation_invariant[OF p] p show ?thesis by simp
qed

text \<open>
  C10. Each of the three functions, whether it returns or raises, leaves every dataframe
  that existed before the call as it was: the dataframes it builds are new objects.
\<close>

theorem datasets_not_mutated:
  assumes "a < length h"
  shows "snd (calculate_demographic_parity_on list_of_dataframes men_total women_total h) ! a
           = h ! a
       \<and> snd (calculate_equality_of_opportunity_on list_of_dataframes cohort_definition_ids h) ! a
           = h ! a
       \<and> snd (calculate_predictive_rate_parity_on list_of_dataframes cohort_definition_ids h) ! a
           = h ! a"
  using assms
  by (simp add: prefix_nth calculate_demographic_parity_on_grows
      calculate_equality_of_opportunity_on_def equality_of_opportunity_on_grows
      calculate_predictive_rate_parity_on_grows)

text \<open>C10 at a store of one dataframe, passed to each of the three functions.\<close>

theorem datasets_not_mutated_witness:
  "(0 :: nat) < length [[example_man, example_woman]]
   \<and> snd (calculate_demographic_parity_on [0] 100 200 [[example_man, example_woman]]) ! 0
       = [example_man, example_woman]
   \<and> snd (calculate_equality_of_opportunity_on [0] [1] [[example_man, example_woman]]) ! 0
       = [example_man, example_woman]
   \<and> snd (calculate_predictive_rate_parity_on [0] [1] [[example_man, example_woman]]) ! 0
       = [example_man, example_woman]"
proof -
  have v: "(0 :: nat) < length [[example_man, example_woman]]" by simp
  from datasets_not_mutated[OF v, of "[0]" 100 200 "[1]"] v show ?thesis by simp
qed

end
